theory Spec2Isabelle
  imports Main
begin

section \<open>The data of \<^verbatim>\<open>tortus.py\<close>\<close>

text \<open>
  The class \<^verbatim>\<open>Tortus\<close> keeps three pandas tables: the source table \<^verbatim>\<open>df\<close>, the
  table \<^verbatim>\<open>subset_df\<close> of the rows cued for annotation, and the table
  \<^verbatim>\<open>annotations\<close> that the button handlers write.

  A row of the source table is modelled by the three things the class reads from it: its
  index label (\<^verbatim>\<open>subset_df.index\<close>), the value in the column named by \<^verbatim>\<open>id_column\<close>
  (read only when an id column is configured) and the value in the column named by
  \<^verbatim>\<open>text\<close>. Index labels and ids are integers, texts are strings.

  The annotations table has the four columns that the constructor creates and that
  \<^verbatim>\<open>annotations.loc[idx] = [id, text, label, time]\<close> fills by position: the id column,
  the text column, \<^verbatim>\<open>label\<close> and \<^verbatim>\<open>annotated_at\<close>. Its index is the default one
  (\<^verbatim>\<open>0 .. n-1\<close>), as in every table created by this tool or read back from a csv file by
  \<^verbatim>\<open>load_annotated_data\<close>, so the index label of a row (\<^verbatim>\<open>row_annot.name\<close>) is its
  position in the list. An absent label (Python \<^verbatim>\<open>None\<close>) is \<open>None\<close>.
\<close>

datatype error = KeyError | ValueError | IndexError

record source_row =
  row_name :: int
  row_id :: int
  row_text :: string

record annotation_row =
  id_col :: int
  text_col :: string
  label :: "string option"
  annotated_at :: nat

text \<open>
  What the notebook cell shows: nothing yet, the annotation form drawn by
  \<^verbatim>\<open>annotate\<close> (\<^verbatim>\<open>display(header, rules, text, ui, output)\<close>), or only the header
  with the progress bar's description replaced (\<^verbatim>\<open>display(header, output)\<close> in
  \<^verbatim>\<open>move_clicked\<close>).
\<close>

datatype display = Blank | Form | Banner string

record session =
  df :: "source_row list"
  num_records :: int
  id_column :: "string option"
  annotations :: "annotation_row list"
  edit_annotations :: bool
  random :: bool
  labels :: "string list"
  display_confirm :: bool
  subset_df :: "source_row list"
  annotation_index :: int
  shown :: display

section \<open>Python and pandas primitives\<close>

text \<open>\<^verbatim>\<open>xs[i]\<close> and \<^verbatim>\<open>.iloc[i]\<close>: a negative index counts from the end, an index out of
  range raises IndexError.\<close>

definition py_index :: "'a list \<Rightarrow> int \<Rightarrow> error + 'a" where
  "py_index xs i =
     (if 0 \<le> i \<and> i < int (length xs) then Inr (xs ! nat i)
      else if i < 0 \<and> - int (length xs) \<le> i then Inr (xs ! nat (int (length xs) + i))
      else Inl IndexError)"

text \<open>\<^verbatim>\<open>xs[:n]\<close>: the first \<open>n\<close> rows, or all but the last \<open>-n\<close> when \<open>n\<close> is negative.\<close>

definition py_slice_to :: "int \<Rightarrow> 'a list \<Rightarrow> 'a list" where
  "py_slice_to n xs =
     (if 0 \<le> n then take (nat n) xs else take (nat (int (length xs) + n)) xs)"

text \<open>\<^verbatim>\<open>DataFrame.sample(n=n)\<close>, without replacement: pandas raises ValueError for a
  negative \<open>n\<close> and for an \<open>n\<close> larger than the population. The order drawn by the random
  generator is the parameter \<open>shuffle\<close>.\<close>

definition sample :: "('a list \<Rightarrow> 'a list) \<Rightarrow> int \<Rightarrow> 'a list \<Rightarrow> error + 'a list" where
  "sample shuffle n xs =
     (if n < 0 \<or> int (length xs) < n then Inl ValueError
      else Inr (take (nat n) (shuffle xs)))"

text \<open>\<^verbatim>\<open>str.lower\<close>, on ASCII letters.\<close>

definition lower_char :: "char \<Rightarrow> char" where
  "lower_char c =
     (let n = (of_char c :: nat) in if 65 \<le> n \<and> n \<le> 90 then char_of (n + 32) else c)"

definition lower :: "string \<Rightarrow> string" where
  "lower s = map lower_char s"

text \<open>\<^verbatim>\<open>annotations.loc[idx] = row\<close> on a table with the default index: the row labelled
  \<open>idx\<close> is overwritten when it exists, and a row is added at the end otherwise.\<close>

definition loc_set :: "nat \<Rightarrow> 'a \<Rightarrow> 'a list \<Rightarrow> 'a list" where
  "loc_set idx row tbl = (if idx < length tbl then tbl[idx := row] else tbl @ [row])"

section \<open>Construction\<close>

text \<open>\<^verbatim>\<open>create_subset_df\<close> (lines 89-113).\<close>

definition create_subset_df ::
  "(source_row list \<Rightarrow> source_row list) \<Rightarrow> session \<Rightarrow> error + source_row list" where
  "create_subset_df shuffle s =
     (let subset_df =
        (if annotations s = [] then df s
         else
           (let already_annotated = map text_col (annotations s);
                row_selection_to_annotate = (\<lambda>r. row_text r \<in> set already_annotated)
            in if \<not> edit_annotations s
               then filter (\<lambda>r. \<not> row_selection_to_annotate r) (df s)
               else filter row_selection_to_annotate (df s)))
      in if random s then sample shuffle (num_records s) subset_df
         else Inr (py_slice_to (num_records s) subset_df))"

text \<open>\<^verbatim>\<open>Tortus.__init__\<close> (lines 65-86). \<^verbatim>\<open>annotation_index\<close> is the class attribute,
  0 for every new object. The default of \<^verbatim>\<open>labels\<close> is spelled as in line 66.\<close>

definition default_labels :: "string list" where
  "default_labels = [''Positve'', ''Negative'', ''Neutral'']"

definition Tortus_init ::
  "(source_row list \<Rightarrow> source_row list) \<Rightarrow> source_row list \<Rightarrow> int \<Rightarrow> string option \<Rightarrow>
   annotation_row list option \<Rightarrow> bool \<Rightarrow> bool \<Rightarrow> string list \<Rightarrow> bool \<Rightarrow> error + session" where
  "Tortus_init shuffle df0 num_records0 id_column0 annotations0 edit_annotations0 random0
     labels0 display_confirm0 =
     (let self = \<lparr> df = df0, num_records = num_records0, id_column = id_column0,
                   annotations = (case annotations0 of None \<Rightarrow> [] | Some a \<Rightarrow> a),
                   edit_annotations = edit_annotations0,
                   random = (if edit_annotations0 then False else random0),
                   labels = labels0, display_confirm = display_confirm0,
                   subset_df = [], annotation_index = 0, shown = Blank \<rparr>
      in case create_subset_df shuffle self of
           Inl e \<Rightarrow> Inl e
         | Inr sub \<Rightarrow> Inr (self\<lparr>subset_df := sub\<rparr>))"

text \<open>The rows eligible for annotation, in the words of the specification: the whole
  source table when there are no prior annotations, else the rows whose text is (edit mode)
  or is not (otherwise) in the text column of the prior table.\<close>

definition spec_eligible ::
  "source_row list \<Rightarrow> annotation_row list \<Rightarrow> bool \<Rightarrow> source_row list" where
  "spec_eligible src prior edit =
     (if prior = [] then src
      else if edit then filter (\<lambda>r. row_text r \<in> text_col ` set prior) src
      else filter (\<lambda>r. row_text r \<notin> text_col ` set prior) src)"

section \<open>Reading the tables\<close>

text \<open>\<^verbatim>\<open>create_record_id\<close> (lines 116-127).\<close>

definition create_record_id :: "session \<Rightarrow> int list" where
  "create_record_id s =
     (case id_column s of
        None \<Rightarrow> map row_name (subset_df s)
      | Some c \<Rightarrow> map row_id (subset_df s))"

text \<open>
  \<^verbatim>\<open>get_annotation_row_from_subset_iloc\<close> (lines 141-144). Line 142 raises IndexError
  for a position outside the subset. Line 143 reads \<^verbatim>\<open>self.annotations[self.id_column]\<close>
  and \<^verbatim>\<open>cur_row[self.id_column]\<close>: with \<^verbatim>\<open>id_column = None\<close> the key is \<^verbatim>\<open>None\<close>, which
  is no column of either table, and pandas raises KeyError. The result is the first matching
  row together with its index label (\<^verbatim>\<open>row_annot.iloc[0]\<close> and its \<^verbatim>\<open>.name\<close>).
\<close>

definition get_annotation_row_from_subset_iloc ::
  "session \<Rightarrow> int \<Rightarrow> error + (nat \<times> annotation_row) option" where
  "get_annotation_row_from_subset_iloc s subset_iloc =
     (case py_index (subset_df s) subset_iloc of
        Inl e \<Rightarrow> Inl e
      | Inr cur_row \<Rightarrow>
          (case id_column s of
             None \<Rightarrow> Inl KeyError
           | Some c \<Rightarrow>
               Inr (find (\<lambda>(name, a). id_col a = row_id cur_row)
                      (enumerate 0 (annotations s)))))"

section \<open>The handlers\<close>

text \<open>
  A handler changes the object and may raise: its result is the state it leaves and the
  exception, if any. What \<^verbatim>\<open>annotate\<close> (lines 146-255) does to the state is modelled
  by its three places that can raise, in order: line 162 reads the current row, line 168
  looks the prior annotation up, and line 231 splits the buttons into
  \<^verbatim>\<open>len(sentiment) // MAX_BUTTONS_IN_ROW\<close> rows, where numpy raises ValueError for zero
  sections, that is for fewer than three labels. Then the form is displayed. The colours,
  borders and \<^verbatim>\<open>disabled\<close> flags of the buttons and the value of the progress bar are
  left out: the handlers set them and never read them.
\<close>

definition MAX_BUTTONS_IN_ROW :: nat where
  "MAX_BUTTONS_IN_ROW = 5"

definition annotate :: "session \<Rightarrow> session \<times> error option" where
  "annotate s =
     (case py_index (subset_df s) (annotation_index s) of
        Inl e \<Rightarrow> (s, Some e)
      | Inr row \<Rightarrow>
          (case get_annotation_row_from_subset_iloc s (annotation_index s) of
             Inl e \<Rightarrow> (s, Some e)
           | Inr row_annot \<Rightarrow>
               if (length (labels s) + 2) div MAX_BUTTONS_IN_ROW = 0 then (s, Some ValueError)
               else (s\<lparr>shown := Form\<rparr>, None)))"

text \<open>\<^verbatim>\<open>move_clicked\<close> (lines 321-342).\<close>

definition move_clicked :: "int \<Rightarrow> session \<Rightarrow> session \<times> error option" where
  "move_clicked delta s =
     (if delta = -1 \<and> annotation_index s = 0 then (s, None)
      else if annotation_index s < int (length (subset_df s)) - 1
      then annotate (s\<lparr>annotation_index := annotation_index s + delta\<rparr>)
      else (s\<lparr>shown := Banner (if delta = 1 then ''Complete'' else ''Start'')\<rparr>, None))"

definition confirm_button_clicked :: "session \<Rightarrow> session \<times> error option" where
  "confirm_button_clicked s = move_clicked 1 s"

definition prev_button_clicked :: "session \<Rightarrow> session \<times> error option" where
  "prev_button_clicked s = move_clicked (-1) s"

text \<open>
  \<^verbatim>\<open>label_or_skip_buttons_clicked\<close> (lines 258-300). \<open>description\<close> is the clicked
  button's \<^verbatim>\<open>description\<close>, \<open>now\<close> the clock reading of line 280. The right-hand side
  of line 276 is evaluated before the table is written.
\<close>

definition label_or_skip_buttons_clicked ::
  "string \<Rightarrow> bool \<Rightarrow> nat \<Rightarrow> session \<Rightarrow> session \<times> error option" where
  "label_or_skip_buttons_clicked description skip now s =
     (let record_id = create_record_id s in
      case get_annotation_row_from_subset_iloc s (annotation_index s) of
        Inl e \<Rightarrow> (s, Some e)
      | Inr row_annot \<Rightarrow>
          (let new_button_label = lower description;
               (idx, lbl) =
                 (case row_annot of
                    Some (name, r) \<Rightarrow> (name, if skip then label r else Some new_button_label)
                  | None \<Rightarrow>
                      (length (annotations s), if skip then None else Some new_button_label))
           in case py_index record_id (annotation_index s) of
                Inl e \<Rightarrow> (s, Some e)
              | Inr rid \<Rightarrow>
                  (case py_index (map row_text (subset_df s)) (annotation_index s) of
                     Inl e \<Rightarrow> (s, Some e)
                   | Inr txt \<Rightarrow>
                       (let s' = s\<lparr>annotations :=
                                   loc_set idx
                                     \<lparr>id_col = rid, text_col = txt, label = lbl,
                                      annotated_at = now\<rparr>
                                     (annotations s)\<rparr>
                        in if \<not> display_confirm s' then confirm_button_clicked s'
                           else (s', None)))))"

definition label_buttons_clicked :: "string \<Rightarrow> nat \<Rightarrow> session \<Rightarrow> session \<times> error option" where
  "label_buttons_clicked description now s =
     label_or_skip_buttons_clicked description False now s"

definition skip_button_clicked :: "nat \<Rightarrow> session \<Rightarrow> session \<times> error option" where
  "skip_button_clicked now s = label_or_skip_buttons_clicked ''Skip'' True now s"

text \<open>\<^verbatim>\<open>redo_button_clicked\<close> (lines 355-376): \<^verbatim>\<open>annotations.head(-1)\<close> is the table
  without its last row, and the empty table when it is empty.\<close>

definition redo_button_clicked :: "session \<Rightarrow> session \<times> error option" where
  "redo_button_clicked s = (s\<lparr>annotations := butlast (annotations s)\<rparr>, None)"

section \<open>Sequences of clicks\<close>

text \<open>
  The user runs \<^verbatim>\<open>annotate()\<close> and then clicks buttons. An exception raised inside a
  handler ends that handler only: the object keeps what the handler had written by then, and
  the next click runs on it.
\<close>

datatype action = Annotate | ChooseLabel string nat | Skip nat | Confirm | Prev | Undo

fun handle :: "action \<Rightarrow> session \<Rightarrow> session \<times> error option" where
  "handle Annotate s = annotate s"
| "handle (ChooseLabel description now) s = label_buttons_clicked description now s"
| "handle (Skip now) s = skip_button_clicked now s"
| "handle Confirm s = confirm_button_clicked s"
| "handle Prev s = prev_button_clicked s"
| "handle Undo s = redo_button_clicked s"

fun run :: "action list \<Rightarrow> session \<Rightarrow> session" where
  "run [] s = s"
| "run (a # as) s = run as (fst (handle a s))"

text \<open>The position is an index of the working subset.\<close>

definition in_range :: "session \<Rightarrow> bool" where
  "in_range s = (0 \<le> annotation_index s \<and> annotation_index s \<le> int (length (subset_df s)) - 1)"

section \<open>Concrete tables and sessions\<close>

text \<open>A source table of five rows with an id column, and a prior annotations table that
  holds the second row's text.\<close>

definition ex_src :: "source_row list" where
  "ex_src = [\<lparr>row_name = 0, row_id = 10, row_text = ''a''\<rparr>,
             \<lparr>row_name = 1, row_id = 11, row_text = ''b''\<rparr>,
             \<lparr>row_name = 2, row_id = 12, row_text = ''c''\<rparr>,
             \<lparr>row_name = 3, row_id = 13, row_text = ''d''\<rparr>,
             \<lparr>row_name = 4, row_id = 14, row_text = ''e''\<rparr>]"

definition ex_prior :: "annotation_row list" where
  "ex_prior = [\<lparr>id_col = 11, text_col = ''b'', label = Some ''positive'', annotated_at = 1\<rparr>]"

text \<open>The session built from \<open>ex_src\<close> with three records, an id column and no prior
  annotations; the same with the confirmation step switched on; and the same with no record
  requested.\<close>

definition fresh_session :: session where
  "fresh_session =
     \<lparr>df = ex_src, num_records = 3, id_column = Some ''id'', annotations = [],
      edit_annotations = False, random = False, labels = default_labels,
      display_confirm = False, subset_df = take 3 ex_src, annotation_index = 0, shown = Blank\<rparr>"

definition confirm_session :: session where
  "confirm_session = fresh_session\<lparr>display_confirm := True\<rparr>"

definition empty_session :: session where
  "empty_session = fresh_session\<lparr>num_records := 0, subset_df := []\<rparr>"

text \<open>The confirming session after its first two records were labelled: back at the first
  record, and at the last one.\<close>

definition revisit_session :: session where
  "revisit_session =
     \<lparr>df = ex_src, num_records = 3, id_column = Some ''id'',
      annotations = [\<lparr>id_col = 10, text_col = ''a'', label = Some ''neutral'', annotated_at = 1\<rparr>,
                     \<lparr>id_col = 11, text_col = ''b'', label = Some ''negative'', annotated_at = 2\<rparr>],
      edit_annotations = False, random = False, labels = default_labels,
      display_confirm = True, subset_df = take 3 ex_src, annotation_index = 0, shown = Form\<rparr>"

definition last_session :: session where
  "last_session = revisit_session\<lparr>annotation_index := 2\<rparr>"

text \<open>A source row whose text was changed after it had been annotated: the prior table
  still holds the old text under the row's id.\<close>

definition drifted_src :: "source_row list" where
  "drifted_src = [\<lparr>row_name = 0, row_id = 7, row_text = ''new''\<rparr>]"

definition drifted_prior :: "annotation_row list" where
  "drifted_prior = [\<lparr>id_col = 7, text_col = ''old'', label = Some ''positive'', annotated_at = 1\<rparr>]"

definition drifted_session :: session where
  "drifted_session =
     \<lparr>df = drifted_src, num_records = 10, id_column = Some ''id'', annotations = drifted_prior,
      edit_annotations = False, random = False, labels = default_labels,
      display_confirm = False, subset_df = drifted_src, annotation_index = 0, shown = Blank\<rparr>"

text \<open>An edit session without an id column: the record ids are the index labels of the
  source table, and the prior table holds an entry for the first row under its label 0.\<close>

definition indexed_prior :: "annotation_row list" where
  "indexed_prior = [\<lparr>id_col = 0, text_col = ''a'', label = Some ''positive'', annotated_at = 1\<rparr>]"

definition indexed_session :: session where
  "indexed_session =
     \<lparr>df = ex_src, num_records = 3, id_column = None, annotations = indexed_prior,
      edit_annotations = True, random = False, labels = default_labels,
      display_confirm = False, subset_df = take 1 ex_src, annotation_index = 0, shown = Blank\<rparr>"

text \<open>An edit session over \<open>ex_prior\<close> for which nine records in random order were
  requested.\<close>

definition edit_session :: session where
  "edit_session =
     \<lparr>df = ex_src, num_records = 9, id_column = Some ''id'', annotations = ex_prior,
      edit_annotations = True, random = False, labels = default_labels,
      display_confirm = False,
      subset_df = [\<lparr>row_name = 1, row_id = 11, row_text = ''b''\<rparr>],
      annotation_index = 0, shown = Blank\<rparr>"

section \<open>Facts about the primitives\<close>

lemma py_index_map:
  "py_index (map f xs) i = (case py_index xs i of Inl e \<Rightarrow> Inl e | Inr x \<Rightarrow> Inr (f x))"
  by (auto simp: py_index_def)

lemma find_enumerate_None:
  "find (\<lambda>(n, a). P a) (enumerate k xs) = None \<longleftrightarrow> (\<forall>a \<in> set xs. \<not> P a)"
  by (induction xs arbitrary: k) auto

lemma find_enumerate_Some:
  "find (\<lambda>(n, a). P a) (enumerate k xs) = Some (i, r) \<Longrightarrow>
     k \<le> i \<and> i - k < length xs \<and> xs ! (i - k) = r \<and> P r \<and> (\<forall>j < i - k. \<not> P (xs ! j))"
proof (induction xs arbitrary: k)
  case Nil
  then show ?case by simp
next
  case (Cons a xs)
  show ?case
  proof (cases "P a")
    case True
    with Cons.prems show ?thesis by simp
  next
    case False
    with Cons.prems have "find (\<lambda>(n, a). P a) (enumerate (Suc k) xs) = Some (i, r)" by simp
    from Cons.IH[OF this]
    have ih: "Suc k \<le> i" "i - Suc k < length xs" "xs ! (i - Suc k) = r" "P r"
      "\<forall>j < i - Suc k. \<not> P (xs ! j)" by auto
    from ih(1) have eq: "i - k = Suc (i - Suc k)" by simp
    have "\<not> P ((a # xs) ! j)" if "j < i - k" for j
      using that False ih(5) eq by (cases j) auto
    with ih eq show ?thesis by simp
  qed
qed

lemma lower_Negative: "lower ''Negative'' = ''negative''"
  by code_simp

lemma lower_Neutral: "lower ''Neutral'' = ''neutral''"
  by code_simp



section \<open>The concrete sessions are sessions of the tool\<close>

lemma fresh_session_constructed:
  "Tortus_init id ex_src 3 (Some ''id'') None False False default_labels False = Inr fresh_session"
  by (simp add: Tortus_init_def create_subset_df_def py_slice_to_def fresh_session_def)

lemma confirm_session_constructed:
  "Tortus_init id ex_src 3 (Some ''id'') None False False default_labels True
     = Inr confirm_session"
  by (simp add: Tortus_init_def create_subset_df_def py_slice_to_def fresh_session_def
        confirm_session_def)

lemma empty_session_constructed:
  "Tortus_init id ex_src 0 (Some ''id'') None False False default_labels False = Inr empty_session"
  by (simp add: Tortus_init_def create_subset_df_def py_slice_to_def fresh_session_def
        empty_session_def)

lemma drifted_session_constructed:
  "Tortus_init id drifted_src 10 (Some ''id'') (Some drifted_prior) False False default_labels False
     = Inr drifted_session"
  by (simp add: Tortus_init_def create_subset_df_def py_slice_to_def drifted_session_def
        drifted_src_def drifted_prior_def)

lemma indexed_session_constructed:
  "Tortus_init id ex_src 3 None (Some indexed_prior) True False default_labels False
     = Inr indexed_session"
  by (simp add: Tortus_init_def create_subset_df_def py_slice_to_def indexed_session_def
        indexed_prior_def ex_src_def)

lemma edit_session_constructed:
  "Tortus_init id ex_src 9 (Some ''id'') (Some ex_prior) True True default_labels False
     = Inr edit_session"
  by (simp add: Tortus_init_def create_subset_df_def py_slice_to_def edit_session_def
        ex_prior_def ex_src_def)

lemma revisit_session_reached:
  "run [Annotate, ChooseLabel ''Neutral'' 1, Confirm, ChooseLabel ''Negative'' 2, Prev]
     confirm_session = revisit_session"
  by (simp add: confirm_session_def fresh_session_def revisit_session_def ex_src_def
        default_labels_def annotate_def get_annotation_row_from_subset_iloc_def py_index_def
        MAX_BUTTONS_IN_ROW_def label_buttons_clicked_def label_or_skip_buttons_clicked_def
        create_record_id_def loc_set_def lower_Neutral lower_Negative
        confirm_button_clicked_def prev_button_clicked_def move_clicked_def)

lemma last_session_reached:
  "run [Annotate, ChooseLabel ''Neutral'' 1, Confirm, ChooseLabel ''Negative'' 2, Confirm]
     confirm_session = last_session"
  by (simp add: confirm_session_def fresh_session_def revisit_session_def last_session_def
        ex_src_def default_labels_def annotate_def get_annotation_row_from_subset_iloc_def
        py_index_def MAX_BUTTONS_IN_ROW_def label_buttons_clicked_def
        label_or_skip_buttons_clicked_def create_record_id_def loc_set_def lower_Neutral
        lower_Negative confirm_button_clicked_def move_clicked_def)

lemma fresh_lookup:
  "get_annotation_row_from_subset_iloc fresh_session (annotation_index fresh_session) = Inr None"
  by (simp add: fresh_session_def ex_src_def get_annotation_row_from_subset_iloc_def py_index_def)

lemma fresh_row:
  "py_index (subset_df fresh_session) (annotation_index fresh_session)
     = Inr \<lparr>row_name = 0, row_id = 10, row_text = ''a''\<rparr>"
  by (simp add: fresh_session_def ex_src_def py_index_def)

lemma revisit_lookup:
  "get_annotation_row_from_subset_iloc revisit_session (annotation_index revisit_session)
     = Inr (Some (0, \<lparr>id_col = 10, text_col = ''a'', label = Some ''neutral'', annotated_at = 1\<rparr>))"
  by (simp add: revisit_session_def ex_src_def get_annotation_row_from_subset_iloc_def py_index_def)

lemma revisit_row:
  "py_index (subset_df revisit_session) (annotation_index revisit_session)
     = Inr \<lparr>row_name = 0, row_id = 10, row_text = ''a''\<rparr>"
  by (simp add: revisit_session_def ex_src_def py_index_def)

section \<open>Construction of the working subset\<close>

lemma subset_before_count:
  "(if prior = [] then src
    else (let already_annotated = map text_col prior;
              row_selection_to_annotate = (\<lambda>r. row_text r \<in> set already_annotated)
          in if \<not> edit then filter (\<lambda>r. \<not> row_selection_to_annotate r) src
             else filter row_selection_to_annotate src))
   = spec_eligible src prior edit"
  by (simp add: spec_eligible_def)

text \<open>
  Claim C2. With random order off (not requested, or forced off by edit mode) and a requested
  count that is a count (not negative), construction succeeds, the session starts at
  position 0 with the prior table (or the empty one) as its annotations, and the working
  subset is the first \<open>num_records\<close> eligible rows in source order, where the eligible rows
  are the whole source table when the prior table is empty, the rows whose text is not in
  the prior table's text column in non-edit mode, and the rows whose text is in it in edit
  mode. So the subset has at most \<open>num_records\<close> rows, and exactly that many when enough
  rows are eligible.
\<close>

theorem create_subset_df_sequential:
  assumes count: "0 \<le> n" and seq: "edit \<or> \<not> rnd"
  shows "\<exists>s. Tortus_init shuffle src n idc prior edit rnd lbls conf = Inr s
           \<and> annotation_index s = 0
           \<and> annotations s = (case prior of None \<Rightarrow> [] | Some a \<Rightarrow> a)
           \<and> subset_df s = take (nat n) (spec_eligible src (annotations s) edit)
           \<and> int (length (subset_df s)) \<le> n
           \<and> (n \<le> int (length (spec_eligible src (annotations s) edit))
                \<longrightarrow> int (length (subset_df s)) = n)"
  using assms
  by (auto simp: Tortus_init_def create_subset_df_def subset_before_count py_slice_to_def Let_def)

theorem create_subset_df_sequential_witness:
  "(0::int) \<le> 3 \<and> (False \<or> \<not> False) \<and>
   (\<exists>s. Tortus_init id ex_src 3 (Some ''id'') (Some ex_prior) False False default_labels False
           = Inr s
      \<and> map row_text (subset_df s) = [''a'', ''c'', ''d'']
      \<and> int (length (subset_df s)) = 3)"
  using create_subset_df_sequential
    [of 3 False False id ex_src "Some ''id''" "Some ex_prior" default_labels False]
  by (auto simp: spec_eligible_def ex_src_def ex_prior_def)

text \<open>
  Claim C9, as the code has it. When random order is in effect (requested, and edit mode
  off) and more records are requested than rows are eligible, construction fails with the
  ValueError that \<^verbatim>\<open>DataFrame.sample\<close> raises; nothing in the class checks the count
  before sampling. Edit mode switches random order off (line 83), and the request is then
  cut to the eligible rows.
\<close>

theorem sample_larger_than_population:
  assumes "rnd" and "\<not> edit"
    and "int (length (spec_eligible src (case prior of None \<Rightarrow> [] | Some a \<Rightarrow> a) edit)) < n"
  shows "Tortus_init shuffle src n idc prior edit rnd lbls conf = Inl ValueError"
  using assms
  by (simp add: Tortus_init_def create_subset_df_def subset_before_count sample_def)

theorem sample_larger_than_population_witness:
  "True \<and> \<not> False
   \<and> int (length (spec_eligible ex_src (case Some ex_prior of None \<Rightarrow> [] | Some a \<Rightarrow> a) False)) < 9
   \<and> Tortus_init id ex_src 9 (Some ''id'') (Some ex_prior) False True default_labels False
       = Inl ValueError"
proof -
  have h: "int (length (spec_eligible ex_src (case Some ex_prior of None \<Rightarrow> [] | Some a \<Rightarrow> a)
                 False)) < 9"
    by (simp add: spec_eligible_def ex_src_def ex_prior_def)
  from sample_larger_than_population[OF TrueI _ h, of id "Some ''id''" default_labels False] h
  show ?thesis by simp
qed

theorem sample_larger_than_population_counterexample:
  "Tortus_init id ex_src 9 (Some ''id'') (Some ex_prior) True True default_labels False
     = Inr edit_session
   \<and> length (subset_df edit_session) = 1
   \<and> Tortus_init id ex_src 9 (Some ''id'') (Some ex_prior) False True default_labels False
     = Inl ValueError"
  by (simp add: edit_session_constructed)
     (simp add: edit_session_def Tortus_init_def create_subset_df_def sample_def
        ex_src_def ex_prior_def)

section \<open>Looking up the prior annotation\<close>

lemma lookup_Inr:
  assumes "get_annotation_row_from_subset_iloc s p = Inr ra"
  shows "\<exists>cur_row c. py_index (subset_df s) p = Inr cur_row \<and> id_column s = Some c
           \<and> py_index (create_record_id s) p = Inr (row_id cur_row)
           \<and> py_index (map row_text (subset_df s)) p = Inr (row_text cur_row)
           \<and> ra = find (\<lambda>(name, a). id_col a = row_id cur_row) (enumerate 0 (annotations s))"
  using assms
  by (auto simp: get_annotation_row_from_subset_iloc_def create_record_id_def py_index_map
           split: sum.splits option.splits)

lemma lookup_cases:
  assumes "get_annotation_row_from_subset_iloc s p = Inr ra"
    and "py_index (subset_df s) p = Inr cur_row"
  shows "(ra = None \<longleftrightarrow> row_id cur_row \<notin> id_col ` set (annotations s))"
    and "ra = Some (i, r) \<Longrightarrow> i < length (annotations s) \<and> annotations s ! i = r
           \<and> id_col r = row_id cur_row \<and> (\<forall>j < i. id_col (annotations s ! j) \<noteq> row_id cur_row)"
proof -
  from lookup_Inr[OF assms(1)] assms(2)
  have ra: "ra = find (\<lambda>(name, a). id_col a = row_id cur_row) (enumerate 0 (annotations s))"
    by auto
  show "ra = None \<longleftrightarrow> row_id cur_row \<notin> id_col ` set (annotations s)"
    unfolding ra find_enumerate_None by (force simp: image_iff)
  show "i < length (annotations s) \<and> annotations s ! i = r
           \<and> id_col r = row_id cur_row \<and> (\<forall>j < i. id_col (annotations s ! j) \<noteq> row_id cur_row)"
    if "ra = Some (i, r)"
    using find_enumerate_Some[of "\<lambda>a. id_col a = row_id cur_row" 0 "annotations s" i r] that ra
    by simp
qed

lemma lookup_with_id_column:
  assumes "id_column s = Some c" and "py_index (subset_df s) p = Inr cur_row"
  shows "get_annotation_row_from_subset_iloc s p =
           Inr (find (\<lambda>(name, a). id_col a = row_id cur_row) (enumerate 0 (annotations s)))"
  using assms by (simp add: get_annotation_row_from_subset_iloc_def)

lemma lookup_without_id_column:
  assumes "id_column s = None"
  shows "get_annotation_row_from_subset_iloc s p = Inl KeyError
       \<or> get_annotation_row_from_subset_iloc s p = Inl IndexError"
  using assms
  by (simp add: get_annotation_row_from_subset_iloc_def py_index_def)

text \<open>
  Claim C6, at the input where the code departs from it. The session \<open>indexed_session\<close>
  is built without an id column, so its record ids are the index labels of the source
  table: the record at position 0 has id 0, and the annotations table holds an entry with
  record id 0. The lookup does not return that entry: it raises KeyError, here and at every
  position of every session without an id column.
\<close>

theorem lookup_without_id_column_raises:
  "Tortus_init id ex_src 3 None (Some indexed_prior) True False default_labels False
     = Inr indexed_session
   \<and> py_index (create_record_id indexed_session) 0 = Inr 0
   \<and> id_col (annotations indexed_session ! 0) = 0
   \<and> get_annotation_row_from_subset_iloc indexed_session 0 = Inl KeyError
   \<and> annotate indexed_session = (indexed_session, Some KeyError)
   \<and> label_buttons_clicked ''Positve'' 5 indexed_session = (indexed_session, Some KeyError)"
  by (simp add: indexed_session_constructed)
     (simp add: indexed_session_def indexed_prior_def ex_src_def create_record_id_def
        py_index_def get_annotation_row_from_subset_iloc_def annotate_def
        label_buttons_clicked_def label_or_skip_buttons_clicked_def)

section \<open>Writing an annotation\<close>

lemma annotations_annotate: "annotations (fst (annotate s)) = annotations s"
  by (simp add: annotate_def split: sum.splits option.splits)

lemma annotations_move_clicked: "annotations (fst (move_clicked d s)) = annotations s"
  by (simp add: move_clicked_def annotations_annotate)

lemma write_table:
  assumes "get_annotation_row_from_subset_iloc s (annotation_index s) = Inr ra"
    and "py_index (subset_df s) (annotation_index s) = Inr cur_row"
  shows "annotations (fst (label_or_skip_buttons_clicked d skip now s)) =
     loc_set (case ra of Some (name, r) \<Rightarrow> name | None \<Rightarrow> length (annotations s))
       \<lparr>id_col = row_id cur_row, text_col = row_text cur_row,
        label = (case ra of Some (name, r) \<Rightarrow> if skip then label r else Some (lower d)
                 | None \<Rightarrow> if skip then None else Some (lower d)),
        annotated_at = now\<rparr> (annotations s)"
proof -
  from lookup_Inr[OF assms(1)] assms(2)
  have rid: "py_index (create_record_id s) (annotation_index s) = Inr (row_id cur_row)"
    and tx: "py_index (map row_text (subset_df s)) (annotation_index s) = Inr (row_text cur_row)"
    by auto
  show ?thesis
    by (simp add: label_or_skip_buttons_clicked_def Let_def assms(1) rid tx
          confirm_button_clicked_def annotations_move_clicked split: option.splits prod.splits)
qed

lemma write_append:
  assumes "get_annotation_row_from_subset_iloc s (annotation_index s) = Inr None"
    and "py_index (subset_df s) (annotation_index s) = Inr cur_row"
  shows "annotations (fst (label_or_skip_buttons_clicked d skip now s)) =
           annotations s @ [\<lparr>id_col = row_id cur_row, text_col = row_text cur_row,
                             label = (if skip then None else Some (lower d)),
                             annotated_at = now\<rparr>]"
  using write_table[OF assms, of d skip now] by (simp add: loc_set_def)

lemma write_update:
  assumes "get_annotation_row_from_subset_iloc s (annotation_index s) = Inr (Some (i, r))"
    and "py_index (subset_df s) (annotation_index s) = Inr cur_row"
  shows "i < length (annotations s) \<and> annotations s ! i = r \<and> id_col r = row_id cur_row
     \<and> length (annotations (fst (label_or_skip_buttons_clicked d skip now s)))
         = length (annotations s)
     \<and> annotations (fst (label_or_skip_buttons_clicked d skip now s)) =
         (annotations s)[i := r\<lparr>text_col := row_text cur_row,
                                 label := (if skip then label r else Some (lower d)),
                                 annotated_at := now\<rparr>]"
proof -
  from lookup_cases(2)[OF assms refl]
  have *: "i < length (annotations s)" "annotations s ! i = r" "id_col r = row_id cur_row"
    by auto
  have eq: "r\<lparr>text_col := row_text cur_row, label := (if skip then label r else Some (lower d)),
              annotated_at := now\<rparr>
      = \<lparr>id_col = row_id cur_row, text_col = row_text cur_row,
         label = (if skip then label r else Some (lower d)), annotated_at = now\<rparr>"
    using *(3) by (cases r) simp
  show ?thesis unfolding eq using write_table[OF assms, of d skip now] *
    by (simp add: loc_set_def)
qed

text \<open>
  Claim C1, as the code has it. At a position where the lookup returns (an id column is
  configured and the position is in the subset), the lookup finds no entry exactly when no
  row of the table carries the record's id. Then \<^verbatim>\<open>label_buttons_clicked\<close> appends exactly
  one row: the record's id, its text, the lowercased label and the time. When the lookup
  finds the entry \<open>r\<close> at table position \<open>i\<close>, the row count is unchanged and only row \<open>i\<close>
  changes: it is overwritten with the same record id, the text of the current record, the
  lowercased label and the time. So the text of the row is rewritten as well, and changes
  when the table held another text under that id.
\<close>

theorem label_buttons_clicked_table:
  assumes "get_annotation_row_from_subset_iloc s (annotation_index s) = Inr ra"
  shows "\<exists>cur_row. py_index (subset_df s) (annotation_index s) = Inr cur_row
     \<and> py_index (create_record_id s) (annotation_index s) = Inr (row_id cur_row)
     \<and> (ra = None \<longleftrightarrow> row_id cur_row \<notin> id_col ` set (annotations s))
     \<and> (case ra of
          None \<Rightarrow>
            annotations (fst (label_buttons_clicked d now s)) =
              annotations s @ [\<lparr>id_col = row_id cur_row, text_col = row_text cur_row,
                                label = Some (lower d), annotated_at = now\<rparr>]
        | Some (i, r) \<Rightarrow>
            i < length (annotations s) \<and> annotations s ! i = r \<and> id_col r = row_id cur_row
            \<and> length (annotations (fst (label_buttons_clicked d now s))) = length (annotations s)
            \<and> annotations (fst (label_buttons_clicked d now s)) =
                (annotations s)[i := r\<lparr>text_col := row_text cur_row, label := Some (lower d),
                                        annotated_at := now\<rparr>])"
proof -
  from lookup_Inr[OF assms] obtain cur_row where
    cur: "py_index (subset_df s) (annotation_index s) = Inr cur_row"
    and rid: "py_index (create_record_id s) (annotation_index s) = Inr (row_id cur_row)"
    by auto
  have "ra = None \<longleftrightarrow> row_id cur_row \<notin> id_col ` set (annotations s)"
    by (rule lookup_cases(1)[OF assms cur])
  moreover have "annotations (fst (label_buttons_clicked d now s)) =
      annotations s @ [\<lparr>id_col = row_id cur_row, text_col = row_text cur_row,
                        label = Some (lower d), annotated_at = now\<rparr>]" if "ra = None"
    using write_append[OF assms[unfolded that] cur, of d False now]
    by (simp add: label_buttons_clicked_def)
  moreover have "i < length (annotations s) \<and> annotations s ! i = r \<and> id_col r = row_id cur_row
      \<and> length (annotations (fst (label_buttons_clicked d now s))) = length (annotations s)
      \<and> annotations (fst (label_buttons_clicked d now s)) =
          (annotations s)[i := r\<lparr>text_col := row_text cur_row, label := Some (lower d),
                                  annotated_at := now\<rparr>]" if "ra = Some (i, r)" for i r
    using write_update[OF assms[unfolded that] cur, of d False now]
    by (simp add: label_buttons_clicked_def)
  ultimately show ?thesis using cur rid
    by (auto split: option.splits)
qed

theorem label_buttons_clicked_table_witness:
  "get_annotation_row_from_subset_iloc fresh_session (annotation_index fresh_session) = Inr None
   \<and> annotations (fst (label_buttons_clicked ''Negative'' 5 fresh_session))
       = [\<lparr>id_col = 10, text_col = ''a'', label = Some ''negative'', annotated_at = 5\<rparr>]
   \<and> get_annotation_row_from_subset_iloc revisit_session (annotation_index revisit_session)
       = Inr (Some (0, \<lparr>id_col = 10, text_col = ''a'', label = Some ''neutral'', annotated_at = 1\<rparr>))
   \<and> annotations (fst (label_buttons_clicked ''Negative'' 5 revisit_session))
       = [\<lparr>id_col = 10, text_col = ''a'', label = Some ''negative'', annotated_at = 5\<rparr>,
          \<lparr>id_col = 11, text_col = ''b'', label = Some ''negative'', annotated_at = 2\<rparr>]"
proof -
  have "annotations fresh_session = []"
    by (simp add: fresh_session_def)
  with label_buttons_clicked_table[OF fresh_lookup, of "''Negative''" 5] fresh_row
  have a: "annotations (fst (label_buttons_clicked ''Negative'' 5 fresh_session))
       = [\<lparr>id_col = 10, text_col = ''a'', label = Some ''negative'', annotated_at = 5\<rparr>]"
    by (auto simp: lower_Negative)
  have "annotations revisit_session
       = [\<lparr>id_col = 10, text_col = ''a'', label = Some ''neutral'', annotated_at = 1\<rparr>,
          \<lparr>id_col = 11, text_col = ''b'', label = Some ''negative'', annotated_at = 2\<rparr>]"
    by (simp add: revisit_session_def)
  with label_buttons_clicked_table[OF revisit_lookup, of "''Negative''" 5] revisit_row
  have b: "annotations (fst (label_buttons_clicked ''Negative'' 5 revisit_session))
       = [\<lparr>id_col = 10, text_col = ''a'', label = Some ''negative'', annotated_at = 5\<rparr>,
          \<lparr>id_col = 11, text_col = ''b'', label = Some ''negative'', annotated_at = 2\<rparr>]"
    by (auto simp: lower_Negative)
  from a b fresh_lookup revisit_lookup show ?thesis by simp
qed

theorem label_buttons_clicked_table_counterexample:
  "Tortus_init id drifted_src 10 (Some ''id'') (Some drifted_prior) False False default_labels False
     = Inr drifted_session
   \<and> get_annotation_row_from_subset_iloc drifted_session (annotation_index drifted_session)
     = Inr (Some (0, \<lparr>id_col = 7, text_col = ''old'', label = Some ''positive'', annotated_at = 1\<rparr>))
   \<and> annotations (fst (label_buttons_clicked ''Negative'' 2 drifted_session))
     = [\<lparr>id_col = 7, text_col = ''new'', label = Some ''negative'', annotated_at = 2\<rparr>]
   \<and> text_col (annotations (fst (label_buttons_clicked ''Negative'' 2 drifted_session)) ! 0)
     \<noteq> text_col (annotations drifted_session ! 0)"
  by (simp add: drifted_session_constructed)
     (simp add: drifted_session_def drifted_src_def drifted_prior_def
        get_annotation_row_from_subset_iloc_def py_index_def label_buttons_clicked_def
        label_or_skip_buttons_clicked_def create_record_id_def loc_set_def lower_Negative
        confirm_button_clicked_def move_clicked_def)

text \<open>
  Claim C3, as the code has it. At a position where the lookup returns,
  \<^verbatim>\<open>skip_button_clicked\<close> appends a row with no label exactly when no row of the table
  carries the record's id. When the lookup finds the entry \<open>r\<close> at table position \<open>i\<close>, the
  row count is unchanged, the label of the entry is kept, whatever it is, and only row \<open>i\<close>
  changes: it is overwritten with the same record id, the text of the current record, the
  kept label and the time. So besides the time the text of the row is rewritten, and changes
  when the table held another text under that id.
\<close>

theorem skip_button_clicked_table:
  assumes "get_annotation_row_from_subset_iloc s (annotation_index s) = Inr ra"
  shows "\<exists>cur_row. py_index (subset_df s) (annotation_index s) = Inr cur_row
     \<and> py_index (create_record_id s) (annotation_index s) = Inr (row_id cur_row)
     \<and> (ra = None \<longleftrightarrow> row_id cur_row \<notin> id_col ` set (annotations s))
     \<and> (case ra of
          None \<Rightarrow>
            annotations (fst (skip_button_clicked now s)) =
              annotations s @ [\<lparr>id_col = row_id cur_row, text_col = row_text cur_row,
                                label = None, annotated_at = now\<rparr>]
        | Some (i, r) \<Rightarrow>
            i < length (annotations s) \<and> annotations s ! i = r \<and> id_col r = row_id cur_row
            \<and> length (annotations (fst (skip_button_clicked now s))) = length (annotations s)
            \<and> annotations (fst (skip_button_clicked now s)) =
                (annotations s)[i := r\<lparr>text_col := row_text cur_row, annotated_at := now\<rparr>]
            \<and> label (annotations (fst (skip_button_clicked now s)) ! i) = label r)"
proof -
  from lookup_Inr[OF assms] obtain cur_row where
    cur: "py_index (subset_df s) (annotation_index s) = Inr cur_row"
    and rid: "py_index (create_record_id s) (annotation_index s) = Inr (row_id cur_row)"
    by auto
  have "ra = None \<longleftrightarrow> row_id cur_row \<notin> id_col ` set (annotations s)"
    by (rule lookup_cases(1)[OF assms cur])
  moreover have "annotations (fst (skip_button_clicked now s)) =
      annotations s @ [\<lparr>id_col = row_id cur_row, text_col = row_text cur_row,
                        label = None, annotated_at = now\<rparr>]" if "ra = None"
    using write_append[OF assms[unfolded that] cur, of "''Skip''" True now]
    by (simp add: skip_button_clicked_def)
  moreover have "i < length (annotations s) \<and> annotations s ! i = r \<and> id_col r = row_id cur_row
      \<and> length (annotations (fst (skip_button_clicked now s))) = length (annotations s)
      \<and> annotations (fst (skip_button_clicked now s)) =
          (annotations s)[i := r\<lparr>text_col := row_text cur_row, annotated_at := now\<rparr>]
      \<and> label (annotations (fst (skip_button_clicked now s)) ! i) = label r"
    if "ra = Some (i, r)" for i r
    using write_update[OF assms[unfolded that] cur, of "''Skip''" True now]
    by (simp add: skip_button_clicked_def)
  ultimately show ?thesis using cur rid
    by (auto split: option.splits)
qed

theorem skip_button_clicked_table_witness:
  "get_annotation_row_from_subset_iloc fresh_session (annotation_index fresh_session) = Inr None
   \<and> annotations (fst (skip_button_clicked 5 fresh_session))
       = [\<lparr>id_col = 10, text_col = ''a'', label = None, annotated_at = 5\<rparr>]
   \<and> get_annotation_row_from_subset_iloc revisit_session (annotation_index revisit_session)
       = Inr (Some (0, \<lparr>id_col = 10, text_col = ''a'', label = Some ''neutral'', annotated_at = 1\<rparr>))
   \<and> annotations (fst (skip_button_clicked 5 revisit_session))
       = [\<lparr>id_col = 10, text_col = ''a'', label = Some ''neutral'', annotated_at = 5\<rparr>,
          \<lparr>id_col = 11, text_col = ''b'', label = Some ''negative'', annotated_at = 2\<rparr>]"
proof -
  have "annotations fresh_session = []"
    by (simp add: fresh_session_def)
  with skip_button_clicked_table[OF fresh_lookup, of 5] fresh_row
  have a: "annotations (fst (skip_button_clicked 5 fresh_session))
       = [\<lparr>id_col = 10, text_col = ''a'', label = None, annotated_at = 5\<rparr>]"
    by auto
  have "annotations revisit_session
       = [\<lparr>id_col = 10, text_col = ''a'', label = Some ''neutral'', annotated_at = 1\<rparr>,
          \<lparr>id_col = 11, text_col = ''b'', label = Some ''negative'', annotated_at = 2\<rparr>]"
    by (simp add: revisit_session_def)
  with skip_button_clicked_table[OF revisit_lookup, of 5] revisit_row
  have b: "annotations (fst (skip_button_clicked 5 revisit_session))
       = [\<lparr>id_col = 10, text_col = ''a'', label = Some ''neutral'', annotated_at = 5\<rparr>,
          \<lparr>id_col = 11, text_col = ''b'', label = Some ''negative'', annotated_at = 2\<rparr>]"
    by auto
  from a b fresh_lookup revisit_lookup show ?thesis by simp
qed

theorem skip_button_clicked_table_counterexample:
  "get_annotation_row_from_subset_iloc drifted_session (annotation_index drifted_session)
     = Inr (Some (0, \<lparr>id_col = 7, text_col = ''old'', label = Some ''positive'', annotated_at = 1\<rparr>))
   \<and> annotations (fst (skip_button_clicked 2 drifted_session))
     = [\<lparr>id_col = 7, text_col = ''new'', label = Some ''positive'', annotated_at = 2\<rparr>]
   \<and> text_col (annotations (fst (skip_button_clicked 2 drifted_session)) ! 0)
     \<noteq> text_col (annotations drifted_session ! 0)"
  by (simp add: drifted_session_def drifted_src_def drifted_prior_def
        get_annotation_row_from_subset_iloc_def py_index_def skip_button_clicked_def
        label_or_skip_buttons_clicked_def create_record_id_def loc_set_def
        confirm_button_clicked_def move_clicked_def)







section \<open>Undoing\<close>

lemma redo_after_append:
  assumes "get_annotation_row_from_subset_iloc s (annotation_index s) = Inr None"
  shows "annotations (fst (redo_button_clicked (fst (label_or_skip_buttons_clicked d skip now s))))
           = annotations s"
proof -
  from lookup_Inr[OF assms] obtain cur_row where
    cur: "py_index (subset_df s) (annotation_index s) = Inr cur_row"
    by auto
  from write_append[OF assms cur, of d skip now] show ?thesis
    by (simp add: redo_button_clicked_def)
qed

lemma redo_button_clicked_fields:
  "annotations (fst (redo_button_clicked s)) = butlast (annotations s)"
  "annotation_index (fst (redo_button_clicked s)) = annotation_index s"
  "subset_df (fst (redo_button_clicked s)) = subset_df s"
  "snd (redo_button_clicked s) = None"
  by (simp_all add: redo_button_clicked_def)

lemma redo_button_clicked_empty:
  "annotations s = [] \<Longrightarrow> redo_button_clicked s = (s, None)"
  by (simp add: redo_button_clicked_def)

text \<open>
  Claim C4, at the input where the code departs from it. In \<open>revisit_session\<close> the
  records with ids 10 and 11 are annotated and the position is back at the first record.
  Choosing a label there updates row 0 in place. Undoing right after that removes the last
  row, the annotation of record 11, and keeps the update: the table is left with one row,
  not with the two rows it had before the write. (After a write that appended, the undo does
  restore the table: \<open>redo_after_append\<close>.)
\<close>

theorem redo_after_update_loses_row:
  "run [Annotate, ChooseLabel ''Neutral'' 1, Confirm, ChooseLabel ''Negative'' 2, Prev]
     confirm_session = revisit_session
   \<and> annotations revisit_session
       = [\<lparr>id_col = 10, text_col = ''a'', label = Some ''neutral'', annotated_at = 1\<rparr>,
          \<lparr>id_col = 11, text_col = ''b'', label = Some ''negative'', annotated_at = 2\<rparr>]
   \<and> annotations (fst (label_buttons_clicked ''Negative'' 5 revisit_session))
       = [\<lparr>id_col = 10, text_col = ''a'', label = Some ''negative'', annotated_at = 5\<rparr>,
          \<lparr>id_col = 11, text_col = ''b'', label = Some ''negative'', annotated_at = 2\<rparr>]
   \<and> annotations (fst (redo_button_clicked
                         (fst (label_buttons_clicked ''Negative'' 5 revisit_session))))
       = [\<lparr>id_col = 10, text_col = ''a'', label = Some ''negative'', annotated_at = 5\<rparr>]"
  using revisit_session_reached
  by (simp add: revisit_session_def ex_src_def label_buttons_clicked_def
        label_or_skip_buttons_clicked_def get_annotation_row_from_subset_iloc_def
        create_record_id_def py_index_def loc_set_def lower_Negative redo_button_clicked_def
        del: run.simps)

section \<open>Moving\<close>

lemma annotate_position:
  "annotation_index (fst (annotate s)) = annotation_index s"
  "subset_df (fst (annotate s)) = subset_df s"
  by (simp_all add: annotate_def split: sum.splits)

lemma move_clicked_subset: "subset_df (fst (move_clicked delta s)) = subset_df s"
  by (simp add: move_clicked_def annotate_position)

lemma move_clicked_position:
  "annotation_index (fst (move_clicked delta s)) =
     (if delta = -1 \<and> annotation_index s = 0 then annotation_index s
      else if annotation_index s < int (length (subset_df s)) - 1 then annotation_index s + delta
      else annotation_index s)"
  by (simp add: move_clicked_def annotate_position)

lemma prev_at_first_position:
  "annotation_index s = 0 \<Longrightarrow> prev_button_clicked s = (s, None)"
  by (simp add: prev_button_clicked_def move_clicked_def)

lemma move_clicked_before_last:
  assumes "annotation_index s < int (length (subset_df s)) - 1"
    and "delta = 1 \<or> delta = -1 \<and> 0 < annotation_index s"
  shows "annotation_index (fst (move_clicked delta s)) = annotation_index s + delta"
  using assms by (auto simp: move_clicked_position)

lemma prev_at_last_position:
  assumes "annotation_index s = int (length (subset_df s)) - 1" and "0 < annotation_index s"
  shows "prev_button_clicked s = (s\<lparr>shown := Banner ''Start''\<rparr>, None)"
  using assms by (simp add: prev_button_clicked_def move_clicked_def)

text \<open>
  Claim C5, at the input where the code departs from it. In \<open>last_session\<close> the subset has
  three records and the position is 2, the last one, so position 1 is in the subset. The
  Prev button does not move there: the position stays 2, the form is replaced by the header
  with the progress bar reading \<^verbatim>\<open>Start\<close>, and no exception is raised.
\<close>

theorem prev_at_last_position_stays:
  "run [Annotate, ChooseLabel ''Neutral'' 1, Confirm, ChooseLabel ''Negative'' 2, Confirm]
     confirm_session = last_session
   \<and> length (subset_df last_session) = 3
   \<and> annotation_index last_session = 2
   \<and> prev_button_clicked last_session = (last_session\<lparr>shown := Banner ''Start''\<rparr>, None)
   \<and> annotation_index (fst (prev_button_clicked last_session)) = 2"
  using last_session_reached
  by (simp add: last_session_def revisit_session_def ex_src_def prev_button_clicked_def
        move_clicked_def del: run.simps)

lemma lookup_shown:
  "get_annotation_row_from_subset_iloc (s\<lparr>shown := b\<rparr>) p
     = get_annotation_row_from_subset_iloc s p"
  by (simp add: get_annotation_row_from_subset_iloc_def split: sum.splits option.splits)

lemma move_clicked_final:
  "\<not> annotation_index s < int (length (subset_df s)) - 1 \<Longrightarrow>
     move_clicked 1 s = (s\<lparr>shown := Banner ''Complete''\<rparr>, None)"
  by (simp add: move_clicked_def)

lemma write_after_banner:
  assumes "\<not> annotation_index s < int (length (subset_df s)) - 1"
  shows "label_or_skip_buttons_clicked d skip now (s\<lparr>shown := Banner ''Complete''\<rparr>) =
           (fst (label_or_skip_buttons_clicked d skip now s)\<lparr>shown := Banner ''Complete''\<rparr>,
            snd (label_or_skip_buttons_clicked d skip now s))"
  using assms
  by (simp add: label_or_skip_buttons_clicked_def Let_def lookup_shown create_record_id_def
        confirm_button_clicked_def move_clicked_final
        split: sum.splits option.splits prod.splits)

text \<open>
  Claim C7, as the code has it. Confirming at the final position leaves the position and
  the table as they are and replaces the form by the header with the progress bar reading
  \<^verbatim>\<open>Complete\<close>. Nothing is closed by that: the class keeps no state that the write handler
  checks, so a label or skip click handled after it raises what the same click raises
  before it, and leaves the state that the same click leaves before it, the displayed
  banner apart. In particular it writes the same table.
\<close>

theorem complete_is_not_closed:
  assumes "annotation_index s = int (length (subset_df s)) - 1"
  shows "confirm_button_clicked s = (s\<lparr>shown := Banner ''Complete''\<rparr>, None)
       \<and> label_or_skip_buttons_clicked d skip now (fst (confirm_button_clicked s)) =
           (fst (label_or_skip_buttons_clicked d skip now s)\<lparr>shown := Banner ''Complete''\<rparr>,
            snd (label_or_skip_buttons_clicked d skip now s))"
proof -
  from assms have final: "\<not> annotation_index s < int (length (subset_df s)) - 1" by simp
  show ?thesis
    by (simp add: confirm_button_clicked_def move_clicked_final[OF final]
          write_after_banner[OF final])
qed

theorem complete_is_not_closed_witness:
  "annotation_index last_session = int (length (subset_df last_session)) - 1
   \<and> confirm_button_clicked last_session = (last_session\<lparr>shown := Banner ''Complete''\<rparr>, None)
   \<and> label_or_skip_buttons_clicked ''Neutral'' False 9 (fst (confirm_button_clicked last_session)) =
       (fst (label_or_skip_buttons_clicked ''Neutral'' False 9 last_session)
          \<lparr>shown := Banner ''Complete''\<rparr>,
        snd (label_or_skip_buttons_clicked ''Neutral'' False 9 last_session))"
proof -
  have h: "annotation_index last_session = int (length (subset_df last_session)) - 1"
    by (simp add: last_session_def revisit_session_def ex_src_def)
  show ?thesis
    by (rule conjI[OF h complete_is_not_closed[OF h]])
qed

theorem complete_is_not_closed_counterexample:
  "confirm_button_clicked last_session = (last_session\<lparr>shown := Banner ''Complete''\<rparr>, None)
   \<and> snd (label_buttons_clicked ''Neutral'' 9 (fst (confirm_button_clicked last_session))) = None
   \<and> annotations (fst (label_buttons_clicked ''Neutral'' 9
                         (fst (confirm_button_clicked last_session))))
       = annotations last_session
           @ [\<lparr>id_col = 12, text_col = ''c'', label = Some ''neutral'', annotated_at = 9\<rparr>]"
  by (simp add: last_session_def revisit_session_def ex_src_def confirm_button_clicked_def
        move_clicked_def label_buttons_clicked_def label_or_skip_buttons_clicked_def
        get_annotation_row_from_subset_iloc_def create_record_id_def py_index_def loc_set_def
        lower_Neutral)

section \<open>The position stays in the subset\<close>

lemma write_subset:
  "subset_df (fst (label_or_skip_buttons_clicked d skip now s)) = subset_df s"
  by (simp add: label_or_skip_buttons_clicked_def Let_def confirm_button_clicked_def
        move_clicked_subset split: sum.splits option.splits prod.splits)

lemma write_position:
  "annotation_index (fst (label_or_skip_buttons_clicked d skip now s)) = annotation_index s
   \<or> annotation_index (fst (label_or_skip_buttons_clicked d skip now s)) =
       (if annotation_index s < int (length (subset_df s)) - 1 then annotation_index s + 1
        else annotation_index s)"
  by (simp add: label_or_skip_buttons_clicked_def Let_def confirm_button_clicked_def
        move_clicked_position split: sum.splits option.splits prod.splits)

lemma handle_subset: "subset_df (fst (handle a s)) = subset_df s"
  by (cases a)
     (simp_all add: label_buttons_clicked_def skip_button_clicked_def write_subset
        confirm_button_clicked_def prev_button_clicked_def move_clicked_subset
        redo_button_clicked_def annotate_position)

lemma handle_in_range:
  assumes "in_range s"
  shows "in_range (fst (handle a s))"
proof (cases a)
  case Annotate
  with assms show ?thesis
    by (simp add: in_range_def annotate_position)
next
  case (ChooseLabel d now)
  with assms write_position[of d False now s] show ?thesis
    by (auto simp: in_range_def label_buttons_clicked_def write_subset split: if_splits)
next
  case (Skip now)
  with assms write_position[of "''Skip''" True now s] show ?thesis
    by (auto simp: in_range_def skip_button_clicked_def write_subset split: if_splits)
next
  case Confirm
  with assms show ?thesis
    by (simp add: in_range_def confirm_button_clicked_def move_clicked_position
          move_clicked_subset)
next
  case Prev
  with assms show ?thesis
    by (auto simp: in_range_def prev_button_clicked_def move_clicked_position
          move_clicked_subset)
next
  case Undo
  with assms show ?thesis
    by (simp add: in_range_def redo_button_clicked_def)
qed

lemma run_in_range: "in_range s \<Longrightarrow> in_range (run acts s)"
  by (induction acts arbitrary: s) (simp_all add: handle_in_range)

lemma run_subset: "subset_df (run acts s) = subset_df s"
  by (induction acts arbitrary: s) (simp_all add: handle_subset)

lemma Tortus_init_position:
  "Tortus_init shuffle src n idc prior edit rnd lbls conf = Inr s \<Longrightarrow> annotation_index s = 0"
  by (auto simp: Tortus_init_def Let_def split: sum.splits)

text \<open>
  Claim C10, as the code has it. Every constructed session starts at position 0. When its
  working subset is not empty, the position is an index of the subset from the start and
  after every sequence of calls of \<^verbatim>\<open>annotate\<close> and clicks on the label, skip, confirm,
  prev and redo buttons, whether or not a handler raised on the way; the subset itself
  never changes. A session whose subset is empty can be constructed, and its position 0 is
  not an index of the subset.
\<close>

theorem position_in_range:
  assumes "Tortus_init shuffle src n idc prior edit rnd lbls conf = Inr s"
    and "subset_df s \<noteq> []"
  shows "annotation_index s = 0 \<and> in_range (run acts s) \<and> subset_df (run acts s) = subset_df s"
proof -
  from assms have "in_range s"
    by (cases "subset_df s") (simp_all add: in_range_def Tortus_init_position)
  then show ?thesis
    using assms(1) by (simp add: run_in_range run_subset Tortus_init_position)
qed

theorem position_in_range_witness:
  "Tortus_init id ex_src 3 (Some ''id'') None False False default_labels False = Inr fresh_session
   \<and> subset_df fresh_session \<noteq> []
   \<and> in_range (run [Annotate, ChooseLabel ''Negative'' 1, Prev, Prev, Skip 2, Undo, Confirm,
                     Confirm, Confirm] fresh_session)"
proof -
  have h: "subset_df fresh_session \<noteq> []"
    by (simp add: fresh_session_def ex_src_def)
  from position_in_range[OF fresh_session_constructed h,
         of "[Annotate, ChooseLabel ''Negative'' 1, Prev, Prev, Skip 2, Undo, Confirm,
              Confirm, Confirm]"]
       fresh_session_constructed h
  show ?thesis by (simp del: run.simps)
qed

theorem position_in_range_counterexample:
  "Tortus_init id ex_src 0 (Some ''id'') None False False default_labels False = Inr empty_session
   \<and> subset_df empty_session = []
   \<and> annotation_index empty_session = 0
   \<and> \<not> in_range empty_session
   \<and> annotate empty_session = (empty_session, Some IndexError)"
  by (simp add: empty_session_constructed)
     (simp add: empty_session_def fresh_session_def in_range_def annotate_def py_index_def)

end
